theory Spec2Isabelle
  imports Main "HOL-Library.Word" "HOL-Library.AList"
begin

section \<open>The LRU replacer (lru\_replacer.cpp)\<close>

text \<open>
  Frame identifiers (\<open>frame_id_t\<close>) index the frame array of the buffer pool; they are
  modelled as natural numbers.

  The class keeps a \<open>std::list\<close> of frame identifiers, \<open>lru_list_\<close>, whose front is the
  most recently unpinned frame, and an \<open>unordered_map\<close> \<open>lru_map_\<close> from a frame
  identifier to the iterator of its list node. The model keeps the list as it is and, of
  the map, the set of its keys: the iterator stored under key \<open>f\<close> is the one of the node
  pushed for \<open>f\<close>, so erasing through it removes the occurrence of \<open>f\<close> from the list.

  \<open>Size()\<close> reads a member spelt \<open>LRUlist_\<close>. C++ names are case sensitive, so this is
  a member of its own; no function of the class writes to it. The header that declares
  the members is not among the sources, so the member is kept as a separate field.
  Trailing underscores of member names are dropped.
\<close>

type_synonym frame_id_t = nat

record LRUReplacer =
  max_size :: nat
  lru_list :: "frame_id_t list"
  lru_map :: "frame_id_t set"
  LRUlist :: "frame_id_t list"

text \<open>The constructor stores the capacity; the containers start empty.\<close>

definition LRUReplacer_new :: "nat \<Rightarrow> LRUReplacer" where
  "LRUReplacer_new num_pages =
     \<lparr>max_size = num_pages, lru_list = [], lru_map = {}, LRUlist = []\<rparr>"

text \<open>
  \<open>victim\<close>: \<open>None\<close> is the \<open>false\<close> return; otherwise the frame written through the out
  parameter and the new state.
\<close>

definition victim :: "LRUReplacer \<Rightarrow> (frame_id_t \<times> LRUReplacer) option" where
  "victim r =
     (if lru_list r = [] then None
      else let frame_id = last (lru_list r)
           in Some (frame_id,
                    r\<lparr>lru_list := butlast (lru_list r),
                      lru_map := lru_map r - {frame_id}\<rparr>))"

definition pin :: "frame_id_t \<Rightarrow> LRUReplacer \<Rightarrow> LRUReplacer" where
  "pin frame_id r =
     (if frame_id \<in> lru_map r
      then r\<lparr>lru_list := remove1 frame_id (lru_list r),
             lru_map := lru_map r - {frame_id}\<rparr>
      else r)"

definition unpin :: "frame_id_t \<Rightarrow> LRUReplacer \<Rightarrow> LRUReplacer" where
  "unpin frame_id r =
     (if frame_id \<in> lru_map r then r
      else r\<lparr>lru_list := frame_id # lru_list r,
             lru_map := insert frame_id (lru_map r)\<rparr>)"

definition Size :: "LRUReplacer \<Rightarrow> nat" where
  "Size r = length (LRUlist r)"

text \<open>
  The representation invariant of the list and the map: every tracked frame has one list
  node, and the keys of the map are the frames of the list.
\<close>

definition replacer_inv :: "LRUReplacer \<Rightarrow> bool" where
  "replacer_inv r \<longleftrightarrow> distinct (lru_list r) \<and> set (lru_list r) = lru_map r"

text \<open>The results of \<open>n\<close> successive calls of \<open>victim\<close> (a test driver, not in the source).\<close>

fun select_victims :: "nat \<Rightarrow> LRUReplacer \<Rightarrow> frame_id_t option list" where
  "select_victims 0 r = []"
| "select_victims (Suc n) r =
     (case victim r of
        None \<Rightarrow> None # select_victims n r
      | Some (f, r') \<Rightarrow> Some f # select_victims n r')"

text \<open>The operations of the replacer, and the states it reaches from construction.\<close>

datatype replacer_op = Victim | Pin frame_id_t | Unpin frame_id_t

fun replacer_step :: "replacer_op \<Rightarrow> LRUReplacer \<Rightarrow> LRUReplacer" where
  "replacer_step Victim r = (case victim r of None \<Rightarrow> r | Some (f, r') \<Rightarrow> r')"
| "replacer_step (Pin f) r = pin f r"
| "replacer_step (Unpin f) r = unpin f r"

definition replacer_run :: "replacer_op list \<Rightarrow> LRUReplacer \<Rightarrow> LRUReplacer" where
  "replacer_run ops r = fold replacer_step ops r"

section \<open>Pages and durable storage\<close>

text \<open>
  \<open>PageId\<close> is the pair of a file descriptor and a page number. A \<open>Page\<close> is a frame:
  the identity of the page it holds (member \<open>id_\<close>, here \<open>ident\<close>), its bytes, the dirty
  flag and the pin count. The pin count is a C++ \<open>int\<close> of 32 bits: the model keeps its
  value as an integer and writes the wrap-around out where the source increments it
  (\<open>pin_count_++\<close> at \<open>INT_MAX\<close> is an overflow; the two's complement result is
  \<open>INT_MIN\<close>).
\<close>

definition INT_MAX :: int where
  "INT_MAX = 2147483647"

definition INT_MIN :: int where
  "INT_MIN = - 2147483648"

definition int_cast :: "int \<Rightarrow> int" where
  "int_cast x = (x + 2147483648) mod 4294967296 - 2147483648"

record PageId =
  fd :: int
  page_no :: int

type_synonym byte = "8 word"

record Page =
  ident :: PageId
  data :: "byte list"
  is_dirty :: bool
  pin_count :: int

text \<open>
  Modelled from the spec: \<open>Page::reset_memory\<close> is declared in page.h, which is not among
  the sources; the spec says that the frame's bytes are zero-initialised. The buffer keeps
  its length.
\<close>

definition reset_memory :: "Page \<Rightarrow> Page" where
  "reset_memory page = page\<lparr>data := map (\<lambda>_. 0) (data page)\<rparr>"

text \<open>
  Modelled from the spec: the disk manager is an external collaborator (its source is not
  given). The spec takes it as reliable and synchronous: \<open>read_block\<close> fills the buffer
  from the block at the given file and block number, \<open>write_block\<close> stores the buffer
  there. The model keeps the stored blocks and a log of the calls, so that write-backs and
  loads can be counted. A read fills exactly the number of bytes asked for: the bytes of
  the stored block, followed by zero bytes where the block was never written that far. A
  write stores the whole buffer, which is one page.
\<close>

record DiskManager =
  blocks :: "PageId \<Rightarrow> byte list"
  writes :: "(PageId \<times> byte list) list"
  reads :: "PageId list"

definition write_page :: "int \<Rightarrow> int \<Rightarrow> byte list \<Rightarrow> DiskManager \<Rightarrow> DiskManager" where
  "write_page f n buf d =
     d\<lparr>blocks := (blocks d)(\<lparr>fd = f, page_no = n\<rparr> := buf),
       writes := writes d @ [(\<lparr>fd = f, page_no = n\<rparr>, buf)]\<rparr>"

definition read_page ::
    "int \<Rightarrow> int \<Rightarrow> nat \<Rightarrow> DiskManager \<Rightarrow> byte list \<times> DiskManager" where
  "read_page f n num_bytes d =
     (take num_bytes (blocks d \<lparr>fd = f, page_no = n\<rparr> @ replicate num_bytes 0),
      d\<lparr>reads := reads d @ [\<lparr>fd = f, page_no = n\<rparr>]\<rparr>)"

text \<open>The disk on which no block has been written, and no call made.\<close>

definition empty_disk :: DiskManager where
  "empty_disk = \<lparr>blocks = (\<lambda>_. []), writes = [], reads = []\<rparr>"

section \<open>The buffer pool manager (buffer\_pool\_manager.cpp)\<close>

text \<open>
  The state of the manager: the frame array \<open>pages_\<close>, the page table (an
  \<open>unordered_map\<close>; an association list here, because \<open>flush_all_pages\<close> iterates over
  it), the free list, the replacer, the disk manager, and the members \<open>fd_\<close> and
  \<open>next_page_id_\<close> that \<open>new_page\<close> reads. A \<open>Page*\<close> that a function returns points
  into \<open>pages_\<close>; the model returns the frame index, and \<open>None\<close> for \<open>nullptr\<close>.
  \<open>PAGE_SIZE\<close> is the length of a frame's buffer.
\<close>

record BufferPoolManager =
  pages :: "Page list"
  page_table :: "(PageId \<times> frame_id_t) list"
  free_list :: "frame_id_t list"
  replacer :: LRUReplacer
  disk_manager :: DiskManager
  bpm_fd :: int
  next_page_id :: int

text \<open>
  Modelled from the spec: the constructor is declared in buffer\_pool\_manager.h, which is
  not among the sources. By the spec's scenarios a manager of capacity \<open>n\<close> starts with the
  free list \<open>[0, ..., n - 1]\<close>, an empty page table, an empty tracker and frames that are
  unassigned, clean and unpinned. The page size, the file that \<open>new_page\<close> allocates in,
  and the disk are parameters.
\<close>

definition INVALID_PAGE :: PageId where
  "INVALID_PAGE = \<lparr>fd = - 1, page_no = - 1\<rparr>"

definition BufferPoolManager_new ::
    "nat \<Rightarrow> nat \<Rightarrow> int \<Rightarrow> DiskManager \<Rightarrow> BufferPoolManager" where
  "BufferPoolManager_new pool_size page_size file d =
     \<lparr>pages = replicate pool_size
                \<lparr>ident = INVALID_PAGE, data = replicate page_size 0,
                 is_dirty = False, pin_count = 0\<rparr>,
      page_table = [],
      free_list = [0..<pool_size],
      replacer = LRUReplacer_new pool_size,
      disk_manager = d,
      bpm_fd = file,
      next_page_id = 0\<rparr>"

definition find_victim_page ::
    "BufferPoolManager \<Rightarrow> (frame_id_t \<times> BufferPoolManager) option" where
  "find_victim_page m =
     (if free_list m \<noteq> []
      then Some (hd (free_list m), m\<lparr>free_list := tl (free_list m)\<rparr>)
      else (case victim (replacer m) of
              None \<Rightarrow> None
            | Some (frame_id, r) \<Rightarrow> Some (frame_id, m\<lparr>replacer := r\<rparr>)))"

text \<open>
  \<open>update_page\<close> takes the frame through a pointer; the model takes its index. No
  function of the file calls it.
\<close>

definition update_page ::
    "frame_id_t \<Rightarrow> PageId \<Rightarrow> frame_id_t \<Rightarrow> BufferPoolManager \<Rightarrow> BufferPoolManager" where
  "update_page pg new_page_id new_frame_id m =
     (let page = pages m ! pg;
          d = (if is_dirty page
               then write_page (fd (ident page)) (page_no (ident page)) (data page)
                      (disk_manager m)
               else disk_manager m);
          pt = AList.update new_page_id new_frame_id
                 (AList.delete (ident page) (page_table m))
      in m\<lparr>pages := (pages m)[pg := page\<lparr>ident := new_page_id, is_dirty := False\<rparr>],
           page_table := pt,
           disk_manager := d\<rparr>)"

definition fetch_page ::
    "PageId \<Rightarrow> BufferPoolManager \<Rightarrow> frame_id_t option \<times> BufferPoolManager" where
  "fetch_page page_id m =
     (case map_of (page_table m) page_id of
        Some frame_id \<Rightarrow>
          (let page = pages m ! frame_id
           in (Some frame_id,
               m\<lparr>pages := (pages m)[frame_id :=
                              page\<lparr>pin_count := int_cast (pin_count page + 1)\<rparr>],
                 replacer := pin frame_id (replacer m)\<rparr>))
      | None \<Rightarrow>
          (case find_victim_page m of
             None \<Rightarrow> (None, m)
           | Some (frame_id, m1) \<Rightarrow>
               (let page = pages m1 ! frame_id;
                    (buf, d) = read_page (fd page_id) (page_no page_id)
                                 (length (data page)) (disk_manager m1)
                in (Some frame_id,
                    m1\<lparr>pages := (pages m1)[frame_id :=
                                   page\<lparr>data := buf, ident := page_id,
                                        pin_count := 1, is_dirty := False\<rparr>],
                       disk_manager := d,
                       page_table := AList.update page_id frame_id (page_table m1)\<rparr>))))"

definition unpin_page ::
    "PageId \<Rightarrow> bool \<Rightarrow> BufferPoolManager \<Rightarrow> bool \<times> BufferPoolManager" where
  "unpin_page page_id dirty m =
     (case map_of (page_table m) page_id of
        None \<Rightarrow> (False, m)
      | Some frame_id \<Rightarrow>
          (let page = pages m ! frame_id;
               page1 = (if dirty then page\<lparr>is_dirty := True\<rparr> else page);
               page2 = (if pin_count page1 > 0
                        then page1\<lparr>pin_count := pin_count page1 - 1\<rparr> else page1);
               r = (if pin_count page2 = 0 then unpin frame_id (replacer m)
                    else replacer m)
           in (True, m\<lparr>pages := (pages m)[frame_id := page2], replacer := r\<rparr>)))"

definition flush_page ::
    "PageId \<Rightarrow> BufferPoolManager \<Rightarrow> bool \<times> BufferPoolManager" where
  "flush_page page_id m =
     (case map_of (page_table m) page_id of
        None \<Rightarrow> (False, m)
      | Some frame_id \<Rightarrow>
          (let page = pages m ! frame_id;
               d = write_page (fd page_id) (page_no page_id) (data page) (disk_manager m)
           in (True, m\<lparr>pages := (pages m)[frame_id := page\<lparr>is_dirty := False\<rparr>],
                       disk_manager := d\<rparr>)))"

text \<open>
  \<open>new_page\<close>: the result holds the identity written through the out parameter and the
  frame of the returned page.
\<close>

definition new_page ::
    "BufferPoolManager \<Rightarrow> (PageId \<times> frame_id_t) option \<times> BufferPoolManager" where
  "new_page m =
     (case find_victim_page m of
        None \<Rightarrow> (None, m)
      | Some (frame_id, m1) \<Rightarrow>
          (let page_id = \<lparr>fd = bpm_fd m1, page_no = next_page_id m1\<rparr>;
               page = reset_memory (pages m1 ! frame_id)
           in (Some (page_id, frame_id),
               m1\<lparr>next_page_id := next_page_id m1 + 1,
                  pages := (pages m1)[frame_id :=
                              page\<lparr>ident := page_id, pin_count := 1, is_dirty := False\<rparr>],
                  page_table := AList.update page_id frame_id (page_table m1)\<rparr>)))"

definition delete_page ::
    "PageId \<Rightarrow> BufferPoolManager \<Rightarrow> bool \<times> BufferPoolManager" where
  "delete_page page_id m =
     (case map_of (page_table m) page_id of
        None \<Rightarrow> (False, m)
      | Some frame_id \<Rightarrow>
          (let page = pages m ! frame_id
           in if pin_count page > 0 then (False, m)
              else (True,
                    m\<lparr>page_table := AList.delete page_id (page_table m),
                      free_list := free_list m @ [frame_id],
                      pages := (pages m)[frame_id := reset_memory page]\<rparr>)))"

text \<open>
  \<open>flush_all_pages\<close> walks the page table; \<open>flush_page\<close> leaves the table as it is, so
  the walk is a fold over the table of the starting state.
\<close>

definition flush_all_pages :: "int \<Rightarrow> BufferPoolManager \<Rightarrow> BufferPoolManager" where
  "flush_all_pages file m =
     fold (\<lambda>(page_id, _) m'. if fd page_id = file then snd (flush_page page_id m') else m')
          (page_table m) m"

text \<open>The public operations, and a run of them.\<close>

datatype bpm_op =
    Fetch PageId
  | UnpinPage PageId bool
  | Flush PageId
  | NewPage
  | Delete PageId
  | FlushAll int

fun bpm_step :: "bpm_op \<Rightarrow> BufferPoolManager \<Rightarrow> BufferPoolManager" where
  "bpm_step (Fetch page_id) m = snd (fetch_page page_id m)"
| "bpm_step (UnpinPage page_id dirty) m = snd (unpin_page page_id dirty m)"
| "bpm_step (Flush page_id) m = snd (flush_page page_id m)"
| "bpm_step NewPage m = snd (new_page m)"
| "bpm_step (Delete page_id) m = snd (delete_page page_id m)"
| "bpm_step (FlushAll file) m = flush_all_pages file m"

definition bpm_run :: "bpm_op list \<Rightarrow> BufferPoolManager \<Rightarrow> BufferPoolManager" where
  "bpm_run ops m = fold bpm_step ops m"

section \<open>Scenarios\<close>

text \<open>
  States of a pool of one frame with pages of two bytes, allocating in file 0 on an empty
  disk. The first page created has the identity (0, 0), the second (0, 1).
\<close>

definition dirty_victim_state :: BufferPoolManager where
  "dirty_victim_state =
     bpm_run [NewPage, UnpinPage \<lparr>fd = 0, page_no = 0\<rparr> True]
       (BufferPoolManager_new 1 2 0 empty_disk)"

definition evicted_state :: BufferPoolManager where
  "evicted_state =
     bpm_run [NewPage, UnpinPage \<lparr>fd = 0, page_no = 0\<rparr> False, NewPage]
       (BufferPoolManager_new 1 2 0 empty_disk)"

definition deleted_state :: BufferPoolManager where
  "deleted_state =
     bpm_run [NewPage, UnpinPage \<lparr>fd = 0, page_no = 0\<rparr> False, Delete \<lparr>fd = 0, page_no = 0\<rparr>]
       (BufferPoolManager_new 1 2 0 empty_disk)"

definition pinned_tracked_state :: BufferPoolManager where
  "pinned_tracked_state =
     bpm_run [NewPage, UnpinPage \<lparr>fd = 0, page_no = 0\<rparr> False, Delete \<lparr>fd = 0, page_no = 0\<rparr>,
              NewPage]
       (BufferPoolManager_new 1 2 0 empty_disk)"

text \<open>
  A pool of two frames: page (0, 0) pinned once in frame 0, page (0, 1) unpinned and
  dirty in frame 1.
\<close>

definition two_pages_state :: BufferPoolManager where
  "two_pages_state =
     bpm_run [NewPage, NewPage, UnpinPage \<lparr>fd = 0, page_no = 1\<rparr> True]
       (BufferPoolManager_new 2 2 0 empty_disk)"

text \<open>
  A pool of three frames: the pages (0, 0), (0, 1) and (0, 2) sit in the frames 0, 1 and 2
  and were unpinned in this order, so that the tracker holds 2, 1, 0 (most recent first).
\<close>

definition three_pages_state :: BufferPoolManager where
  "three_pages_state =
     bpm_run [NewPage, NewPage, NewPage,
              UnpinPage \<lparr>fd = 0, page_no = 0\<rparr> False,
              UnpinPage \<lparr>fd = 0, page_no = 1\<rparr> True,
              UnpinPage \<lparr>fd = 0, page_no = 2\<rparr> False]
       (BufferPoolManager_new 3 2 0 empty_disk)"

text \<open>Every frame of the pool has a pin count that is not negative.\<close>

definition pins_nonneg :: "BufferPoolManager \<Rightarrow> bool" where
  "pins_nonneg m \<longleftrightarrow> (\<forall>page \<in> set (pages m). 0 \<le> pin_count page)"

text \<open>Every pin count lies between 0 and the bound \<open>k\<close>.\<close>

definition pins_bounded :: "int \<Rightarrow> BufferPoolManager \<Rightarrow> bool" where
  "pins_bounded k m \<longleftrightarrow>
     0 \<le> k \<and> (\<forall>page \<in> set (pages m). 0 \<le> pin_count page \<and> pin_count page \<le> k)"

section \<open>Properties of the replacer\<close>

lemma replacer_inv_new: "replacer_inv (LRUReplacer_new n)"
  by (simp add: replacer_inv_def LRUReplacer_new_def)

lemma replacer_inv_unpin: "replacer_inv r \<Longrightarrow> replacer_inv (unpin f r)"
  by (auto simp: replacer_inv_def unpin_def)

lemma replacer_inv_pin: "replacer_inv r \<Longrightarrow> replacer_inv (pin f r)"
  by (auto simp: replacer_inv_def pin_def)

lemma replacer_inv_victim:
  assumes "replacer_inv r" and "victim r = Some (f, r')"
  shows "replacer_inv r'"
proof -
  from assms(2) have ne: "lru_list r \<noteq> []"
    by (simp add: victim_def split: if_splits)
  then obtain xs x where decomp: "lru_list r = xs @ [x]"
    by (cases "lru_list r" rule: rev_cases) simp_all
  from assms(2) decomp
  have r': "r' = r\<lparr>lru_list := xs, lru_map := lru_map r - {x}\<rparr>"
    by (auto simp: victim_def)
  from assms(1) decomp have "distinct xs" and "x \<notin> set xs"
    and "lru_map r = insert x (set xs)"
    by (simp_all add: replacer_inv_def)
  then show ?thesis
    by (simp add: r' replacer_inv_def)
qed

lemma replacer_inv_step: "replacer_inv r \<Longrightarrow> replacer_inv (replacer_step x r)"
  by (cases x)
     (auto simp: replacer_inv_pin replacer_inv_unpin
           split: option.splits dest: replacer_inv_victim)

lemma replacer_inv_run: "replacer_inv r \<Longrightarrow> replacer_inv (replacer_run ops r)"
  unfolding replacer_run_def
  by (induction ops arbitrary: r) (simp_all add: replacer_inv_step)

lemma select_victims_drain:
  "select_victims (length xs + n) (r\<lparr>lru_list := ys @ rev xs, lru_map := M\<rparr>) =
   map Some xs @ select_victims n (r\<lparr>lru_list := ys, lru_map := M - set xs\<rparr>)"
proof (induction xs arbitrary: M)
  case Nil
  show ?case by simp
next
  case (Cons x xs)
  have "victim (r\<lparr>lru_list := ys @ rev (x # xs), lru_map := M\<rparr>) =
        Some (x, r\<lparr>lru_list := ys @ rev xs, lru_map := M - {x}\<rparr>)"
    by (simp add: victim_def butlast_append)
  moreover have "M - {x} - set xs = M - set (x # xs)"
    by auto
  ultimately show ?case
    using Cons.IH [of "M - {x}"] by simp
qed

lemma select_victims_after_unpins:
  assumes "a \<notin> lru_map r" "b \<notin> lru_map r" "c \<notin> lru_map r"
    and "a \<noteq> b" "a \<noteq> c" "b \<noteq> c"
  shows "select_victims (length (lru_list r) + 3) (unpin c (unpin b (unpin a r))) =
         map Some (rev (lru_list r)) @ [Some a, Some b, Some c]"
proof -
  let ?xs = "rev (lru_list r) @ [a, b, c]"
  let ?M = "insert c (insert b (insert a (lru_map r)))"
  have st: "unpin c (unpin b (unpin a r)) = r\<lparr>lru_list := [] @ rev ?xs, lru_map := ?M\<rparr>"
    using assms by (simp add: unpin_def)
  have len: "length (lru_list r) + 3 = length ?xs + 0"
    by simp
  have "select_victims (length ?xs + 0) (r\<lparr>lru_list := [] @ rev ?xs, lru_map := ?M\<rparr>) =
        map Some ?xs @ select_victims 0 (r\<lparr>lru_list := [], lru_map := ?M - set ?xs\<rparr>)"
    by (rule select_victims_drain)
  then show ?thesis
    unfolding st len by simp
qed

lemma victim_None_iff: "victim r = None \<longleftrightarrow> lru_list r = []"
  by (simp add: victim_def Let_def)

lemma victim_Some:
  "victim r = Some (f, r') \<longleftrightarrow>
     lru_list r \<noteq> [] \<and> f = last (lru_list r) \<and>
     r' = r\<lparr>lru_list := butlast (lru_list r), lru_map := lru_map r - {last (lru_list r)}\<rparr>"
  by (auto simp: victim_def Let_def)

lemma find_victim_page_tracker:
  "free_list m = [] \<Longrightarrow>
     map_option fst (find_victim_page m) = map_option fst (victim (replacer m))"
  by (auto simp: find_victim_page_def split: option.splits)

lemma LRUlist_step: "LRUlist (replacer_step x r) = LRUlist r"
  by (cases x) (auto simp: victim_def pin_def unpin_def Let_def split: option.splits)

lemma LRUlist_run: "LRUlist (replacer_run ops r) = LRUlist r"
  unfolding replacer_run_def
  by (induction ops arbitrary: r) (simp_all add: LRUlist_step)

lemma Size_run_new: "Size (replacer_run ops (LRUReplacer_new n)) = 0"
  by (simp add: Size_def LRUlist_run) (simp add: LRUReplacer_new_def)

section \<open>Claims about the replacer\<close>

text \<open>
  C6, as the code has it. In every tracker state that satisfies the representation
  invariant (every state reached from construction does): \<open>victim\<close> fails exactly when no
  frame is tracked, and otherwise removes and returns the frame at the back of the list,
  which is the least recently unpinned one; \<open>unpin\<close> of a tracked frame changes nothing,
  and \<open>unpin\<close> of an untracked frame puts it at the front, as the most recently unpinned
  one. For three distinct untracked frames \<open>a\<close>, \<open>b\<close>, \<open>c\<close> unpinned in this order with no
  pin in between, victim selection first returns the frames tracked before, oldest first,
  and then \<open>a\<close>, \<open>b\<close>, \<open>c\<close>; when no other frame is tracked, the next three selections
  return \<open>a\<close>, \<open>b\<close>, \<open>c\<close>. When the free list of the manager is empty, the frame that
  \<open>find_victim_page\<close> yields is the tracker's victim.
\<close>

theorem replacer_lru_order:
  assumes "replacer_inv r"
    and "a \<notin> lru_map r" "b \<notin> lru_map r" "c \<notin> lru_map r"
    and "a \<noteq> b" "a \<noteq> c" "b \<noteq> c"
  shows "(victim r = None \<longleftrightarrow> lru_map r = {}) \<and>
         (lru_map r \<noteq> {} \<longrightarrow>
            victim r = Some (last (lru_list r),
                             r\<lparr>lru_list := butlast (lru_list r),
                               lru_map := lru_map r - {last (lru_list r)}\<rparr>)) \<and>
         (g \<in> lru_map r \<longrightarrow> unpin g r = r) \<and>
         lru_list (unpin a r) = a # lru_list r \<and>
         lru_map (unpin a r) = insert a (lru_map r) \<and>
         select_victims (length (lru_list r) + 3) (unpin c (unpin b (unpin a r))) =
           map Some (rev (lru_list r)) @ [Some a, Some b, Some c] \<and>
         (lru_map r = {} \<longrightarrow>
            select_victims 3 (unpin c (unpin b (unpin a r))) = [Some a, Some b, Some c]) \<and>
         (free_list m = [] \<longrightarrow>
            map_option fst (find_victim_page m) = map_option fst (victim (replacer m)))"
proof -
  from assms(1) have keys: "set (lru_list r) = lru_map r"
    by (simp add: replacer_inv_def)
  then have empty: "lru_list r = [] \<longleftrightarrow> lru_map r = {}"
    by auto
  have none: "victim r = None \<longleftrightarrow> lru_map r = {}"
    by (simp add: victim_None_iff empty)
  have some: "lru_map r \<noteq> {} \<longrightarrow>
           victim r = Some (last (lru_list r),
                            r\<lparr>lru_list := butlast (lru_list r),
                              lru_map := lru_map r - {last (lru_list r)}\<rparr>)"
    by (simp add: victim_Some empty)
  have again: "g \<in> lru_map r \<longrightarrow> unpin g r = r"
    by (simp add: unpin_def)
  have front: "lru_list (unpin a r) = a # lru_list r"
    "lru_map (unpin a r) = insert a (lru_map r)"
    using assms(2) by (simp_all add: unpin_def)
  have all: "select_victims (length (lru_list r) + 3) (unpin c (unpin b (unpin a r))) =
           map Some (rev (lru_list r)) @ [Some a, Some b, Some c]"
    using assms(2-7) by (rule select_victims_after_unpins)
  have three: "lru_map r = {} \<longrightarrow>
           select_victims 3 (unpin c (unpin b (unpin a r))) = [Some a, Some b, Some c]"
  proof
    assume "lru_map r = {}"
    then have "lru_list r = []"
      by (simp add: empty)
    with all show "select_victims 3 (unpin c (unpin b (unpin a r))) = [Some a, Some b, Some c]"
      by simp
  qed
  have manager: "free_list m = [] \<longrightarrow>
           map_option fst (find_victim_page m) = map_option fst (victim (replacer m))"
    by (simp add: find_victim_page_tracker)
  from none some again front all three manager show ?thesis
    by blast
qed

text \<open>
  The theorem at two trackers of a pool of four frames, with the frames 0, 1 and 2: the
  new tracker, where no frame is tracked, and the tracker in which frame 3 is tracked;
  and at the manager of two frames whose free list is empty and whose tracker holds
  frame 1.
\<close>

theorem replacer_lru_order_witness:
  "replacer_inv (LRUReplacer_new 4) \<and>
   lru_map (LRUReplacer_new 4) = {} \<and>
   victim (LRUReplacer_new 4) = None \<and>
   select_victims 3 (unpin 2 (unpin 1 (unpin 0 (LRUReplacer_new 4)))) =
     [Some 0, Some 1, Some 2] \<and>
   replacer_inv (unpin 3 (LRUReplacer_new 4)) \<and>
   0 \<notin> lru_map (unpin 3 (LRUReplacer_new 4)) \<and>
   1 \<notin> lru_map (unpin 3 (LRUReplacer_new 4)) \<and>
   2 \<notin> lru_map (unpin 3 (LRUReplacer_new 4)) \<and>
   3 \<in> lru_map (unpin 3 (LRUReplacer_new 4)) \<and>
   unpin 3 (unpin 3 (LRUReplacer_new 4)) = unpin 3 (LRUReplacer_new 4) \<and>
   fst (the (victim (unpin 3 (LRUReplacer_new 4)))) = 3 \<and>
   select_victims 4 (unpin 2 (unpin 1 (unpin 0 (unpin 3 (LRUReplacer_new 4))))) =
     [Some 3, Some 0, Some 1, Some 2] \<and>
   free_list two_pages_state = [] \<and>
   map_option fst (victim (replacer two_pages_state)) = Some 1 \<and>
   map_option fst (find_victim_page two_pages_state) = Some 1"
proof -
  let ?r0 = "LRUReplacer_new 4"
  let ?r1 = "unpin 3 (LRUReplacer_new 4)"
  have inv0: "replacer_inv ?r0"
    by (rule replacer_inv_new)
  have fresh0: "0 \<notin> lru_map ?r0" "1 \<notin> lru_map ?r0" "2 \<notin> lru_map ?r0"
    by (simp_all add: LRUReplacer_new_def)
  have empty0: "lru_map ?r0 = {}"
    by (simp add: LRUReplacer_new_def)
  have inv1: "replacer_inv ?r1"
    by (simp add: replacer_inv_unpin replacer_inv_new)
  have fresh1: "0 \<notin> lru_map ?r1" "1 \<notin> lru_map ?r1" "2 \<notin> lru_map ?r1"
    by (simp_all add: unpin_def LRUReplacer_new_def)
  have tracked1: "3 \<in> lru_map ?r1" "lru_map ?r1 \<noteq> {}" "lru_list ?r1 = [3]"
    by (simp_all add: unpin_def LRUReplacer_new_def)
  have ne: "(0::nat) \<noteq> 1" "(0::nat) \<noteq> 2" "(1::nat) \<noteq> 2"
    by simp_all
  have full: "free_list two_pages_state = []"
    "map_option fst (victim (replacer two_pages_state)) = Some 1"
    by (simp_all add: two_pages_state_def BufferPoolManager_new_def LRUReplacer_new_def
          INVALID_PAGE_def empty_disk_def find_victim_page_def unpin_page_def new_page_def
          bpm_run_def victim_def unpin_def reset_memory_def Let_def)
  note at0 = replacer_lru_order [OF inv0 fresh0 ne, of 3 two_pages_state]
  note at1 = replacer_lru_order [OF inv1 fresh1 ne, of 3 two_pages_state]
  from at0 full have manager: "map_option fst (find_victim_page two_pages_state) = Some 1"
    by simp
  from at0 empty0 have "victim ?r0 = None"
    and "select_victims 3 (unpin 2 (unpin 1 (unpin 0 ?r0))) = [Some 0, Some 1, Some 2]"
    by blast+
  moreover from at1 tracked1 have "unpin 3 ?r1 = ?r1"
    and "fst (the (victim ?r1)) = 3"
    and "select_victims 4 (unpin 2 (unpin 1 (unpin 0 ?r1))) = [Some 3, Some 0, Some 1, Some 2]"
    by simp_all
  ultimately show ?thesis
    using inv0 empty0 inv1 fresh1 tracked1(1) full manager by simp
qed

text \<open>
  The order property as the claim states it, for any tracker state, fails when another
  frame is tracked already: with frame 3 tracked, unpinning the untracked frames 0, 1, 2
  makes the next three selections return 3, 0, 1.
\<close>

theorem replacer_order_counterexample:
  "0 \<notin> lru_map (unpin 3 (LRUReplacer_new 4)) \<and>
   1 \<notin> lru_map (unpin 3 (LRUReplacer_new 4)) \<and>
   2 \<notin> lru_map (unpin 3 (LRUReplacer_new 4)) \<and>
   select_victims 3 (unpin 2 (unpin 1 (unpin 0 (unpin 3 (LRUReplacer_new 4))))) =
     [Some 3, Some 0, Some 1] \<and>
   select_victims 3 (unpin 2 (unpin 1 (unpin 0 (unpin 3 (LRUReplacer_new 4))))) \<noteq>
     [Some 0, Some 1, Some 2]"
  by (simp add: unpin_def LRUReplacer_new_def victim_def numeral_3_eq_3)

text \<open>
  C9 fails on the code. \<open>Size\<close> returns the length of \<open>LRUlist_\<close>, which no operation
  changes, and not of \<open>lru_list_\<close>, where \<open>unpin\<close> inserts: after one frame has been
  unpinned on a new tracker, one frame is evictable and \<open>Size\<close> is 0.
\<close>

theorem Size_ignores_tracked_frames:
  "lru_list (unpin 0 (LRUReplacer_new 1)) = [0] \<and>
   lru_map (unpin 0 (LRUReplacer_new 1)) = {0} \<and>
   Size (unpin 0 (LRUReplacer_new 1)) = 0"
  by (simp add: unpin_def LRUReplacer_new_def Size_def)


section \<open>Properties of the buffer pool manager\<close>

lemmas bpm_defs =
  BufferPoolManager_new_def LRUReplacer_new_def INVALID_PAGE_def empty_disk_def
  find_victim_page_def fetch_page_def unpin_page_def flush_page_def new_page_def
  delete_page_def bpm_run_def victim_def pin_def unpin_def reset_memory_def
  read_page_def write_page_def int_cast_def Let_def

lemma find_victim_page_disk:
  "find_victim_page m = Some (f, m1) \<Longrightarrow>
     disk_manager m1 = disk_manager m \<and> page_table m1 = page_table m \<and> pages m1 = pages m"
  by (auto simp: find_victim_page_def split: if_splits option.splits)

lemma fetch_page_never_writes:
  "writes (disk_manager (snd (fetch_page page_id m))) = writes (disk_manager m)"
  by (auto simp: fetch_page_def read_page_def Let_def
           split: option.splits dest: find_victim_page_disk)

lemma new_page_never_writes:
  "disk_manager (snd (new_page m)) = disk_manager m"
  by (auto simp: new_page_def Let_def split: option.splits dest: find_victim_page_disk)

lemma fetch_page_keeps_keys:
  "map_of (page_table m) q = Some f \<Longrightarrow>
     map_of (page_table (snd (fetch_page page_id m))) q \<noteq> None"
  by (auto simp: fetch_page_def read_page_def Let_def update_conv'
           split: option.splits dest: find_victim_page_disk)

lemma new_page_keeps_keys:
  "map_of (page_table m) q = Some f \<Longrightarrow>
     map_of (page_table (snd (new_page m))) q \<noteq> None"
  by (auto simp: new_page_def Let_def update_conv'
           split: option.splits dest: find_victim_page_disk)

lemma pin_untracks:
  "frame_id \<notin> lru_map (pin frame_id r)"
  "lru_map (pin frame_id r) = lru_map r - {frame_id}"
  "replacer_inv r \<Longrightarrow> frame_id \<notin> set (lru_list (pin frame_id r))"
  by (auto simp: pin_def replacer_inv_def)

lemma filter_absent: "x \<notin> set xs \<Longrightarrow> filter (\<lambda>y. y \<noteq> x) xs = xs"
  by (induction xs) auto

lemma remove1_distinct_filter:
  "distinct xs \<Longrightarrow> remove1 x xs = filter (\<lambda>y. y \<noteq> x) xs"
  by (induction xs) (auto simp: filter_absent)

lemma pin_keeps_order:
  assumes "replacer_inv r"
  shows "lru_list (pin frame_id r) = filter (\<lambda>g. g \<noteq> frame_id) (lru_list r)"
proof (cases "frame_id \<in> lru_map r")
  case True
  from assms have "distinct (lru_list r)"
    by (simp add: replacer_inv_def)
  then have "remove1 frame_id (lru_list r) = filter (\<lambda>g. g \<noteq> frame_id) (lru_list r)"
    by (rule remove1_distinct_filter)
  with True show ?thesis
    by (simp add: pin_def)
next
  case False
  with assms have "frame_id \<notin> set (lru_list r)"
    by (simp add: replacer_inv_def)
  then have "filter (\<lambda>g. g \<noteq> frame_id) (lru_list r) = lru_list r"
    by (rule filter_absent)
  with False show ?thesis
    by (simp add: pin_def)
qed

lemma delete_page_pinned:
  "map_of (page_table m) page_id = Some frame_id \<Longrightarrow> pin_count (pages m ! frame_id) > 0 \<Longrightarrow>
     delete_page page_id m = (False, m)"
  by (simp add: delete_page_def Let_def)

lemma delete_page_unpinned:
  "map_of (page_table m) page_id = Some frame_id \<Longrightarrow> \<not> pin_count (pages m ! frame_id) > 0 \<Longrightarrow>
     delete_page page_id m =
       (True, m\<lparr>page_table := AList.delete page_id (page_table m),
                free_list := free_list m @ [frame_id],
                pages := (pages m)[frame_id := reset_memory (pages m ! frame_id)]\<rparr>)"
  by (simp add: delete_page_def Let_def)

lemma in_set_list_update:
  assumes "x \<in> set (xs[i := v])"
  shows "x \<in> set xs \<or> (i < length xs \<and> x = v)"
proof (cases "i < length xs")
  case True
  have "set (xs[i := v]) \<subseteq> insert v (set xs)"
    by (rule set_update_subset_insert)
  with assms True show ?thesis by auto
next
  case False
  then have "length xs \<le> i" by simp
  then have "xs[i := v] = xs" by (rule list_update_beyond)
  with assms show ?thesis by simp
qed

lemma int_cast_id: "INT_MIN \<le> x \<Longrightarrow> x \<le> INT_MAX \<Longrightarrow> int_cast x = x"
  by (simp add: int_cast_def INT_MIN_def INT_MAX_def)

lemma int_cast_overflow: "int_cast (INT_MAX + 1) = INT_MIN"
  by (simp add: int_cast_def INT_MIN_def INT_MAX_def)

lemma pins_bounded_new: "pins_bounded 0 (BufferPoolManager_new pool_size page_size file d)"
  by (simp add: pins_bounded_def BufferPoolManager_new_def)

lemma pins_bounded_update:
  assumes "pins_bounded k m" and "k \<le> k'"
    and "pages m' = (pages m)[i := p]"
    and "i < length (pages m) \<Longrightarrow> 0 \<le> pin_count p \<and> pin_count p \<le> k'"
  shows "pins_bounded k' m'"
proof -
  have "0 \<le> pin_count page \<and> pin_count page \<le> k'" if "page \<in> set (pages m')" for page
  proof -
    from that assms(3) have "page \<in> set (pages m) \<or> (i < length (pages m) \<and> page = p)"
      by (simp add: in_set_list_update)
    then show ?thesis
    proof
      assume "page \<in> set (pages m)"
      with assms(1) have "0 \<le> pin_count page \<and> pin_count page \<le> k"
        by (simp add: pins_bounded_def)
      with assms(2) show ?thesis by simp
    next
      assume "i < length (pages m) \<and> page = p"
      with assms(4) show ?thesis by simp
    qed
  qed
  moreover from assms(1,2) have "0 \<le> k'"
    by (simp add: pins_bounded_def)
  ultimately show ?thesis
    by (simp add: pins_bounded_def)
qed

lemma pins_bounded_nth:
  "pins_bounded k m \<Longrightarrow> i < length (pages m) \<Longrightarrow>
     0 \<le> pin_count (pages m ! i) \<and> pin_count (pages m ! i) \<le> k"
  by (simp add: pins_bounded_def)

lemma pins_bounded_mono: "pins_bounded k m \<Longrightarrow> k \<le> k' \<Longrightarrow> pins_bounded k' m"
  unfolding pins_bounded_def by fastforce

lemma pins_bounded_fetch_page:
  assumes "pins_bounded k m" and "k < INT_MAX"
  shows "pins_bounded (k + 1) (snd (fetch_page page_id m))"
proof (cases "map_of (page_table m) page_id")
  case (Some frame_id)
  let ?p = "(pages m ! frame_id)\<lparr>pin_count := int_cast (pin_count (pages m ! frame_id) + 1)\<rparr>"
  have pg: "pages (snd (fetch_page page_id m)) = (pages m)[frame_id := ?p]"
    using Some by (simp add: fetch_page_def Let_def)
  have "0 \<le> pin_count ?p \<and> pin_count ?p \<le> k + 1" if "frame_id < length (pages m)"
  proof -
    from assms(1) that
    have b: "0 \<le> pin_count (pages m ! frame_id)" "pin_count (pages m ! frame_id) \<le> k"
      by (simp_all add: pins_bounded_nth)
    with assms(2)
    have "int_cast (pin_count (pages m ! frame_id) + 1) = pin_count (pages m ! frame_id) + 1"
      by (intro int_cast_id) (simp_all add: INT_MIN_def)
    with b show ?thesis by simp
  qed
  then show ?thesis
    by (intro pins_bounded_update [OF assms(1) _ pg]) simp_all
next
  case None
  show ?thesis
  proof (cases "find_victim_page m")
    case no_frame: None
    with None have "snd (fetch_page page_id m) = m"
      by (simp add: fetch_page_def)
    with assms(1) show ?thesis
      by (simp add: pins_bounded_mono)
  next
    case (Some a)
    then obtain frame_id m1 where fv: "find_victim_page m = Some (frame_id, m1)"
      by (cases a) simp
    then have same: "pages m1 = pages m"
      by (simp add: find_victim_page_disk)
    from None fv same obtain p where
      pg: "pages (snd (fetch_page page_id m)) = (pages m)[frame_id := p]"
      and one: "pin_count p = 1"
      by (simp add: fetch_page_def read_page_def Let_def)
    from assms(1) have "0 \<le> k"
      by (simp add: pins_bounded_def)
    with one show ?thesis
      by (intro pins_bounded_update [OF assms(1) _ pg]) simp_all
  qed
qed

lemma pins_bounded_new_page:
  assumes "pins_bounded k m"
  shows "pins_bounded (k + 1) (snd (new_page m))"
proof (cases "find_victim_page m")
  case None
  then have "snd (new_page m) = m"
    by (simp add: new_page_def)
  with assms show ?thesis
    by (simp add: pins_bounded_mono)
next
  case (Some a)
  then obtain frame_id m1 where fv: "find_victim_page m = Some (frame_id, m1)"
    by (cases a) simp
  then have same: "pages m1 = pages m"
    by (simp add: find_victim_page_disk)
  from fv same obtain p where
    pg: "pages (snd (new_page m)) = (pages m)[frame_id := p]"
    and one: "pin_count p = 1"
    by (simp add: new_page_def Let_def)
  from assms have "0 \<le> k"
    by (simp add: pins_bounded_def)
  with one show ?thesis
    by (intro pins_bounded_update [OF assms _ pg]) simp_all
qed

lemma pins_bounded_unpin_page:
  assumes "pins_bounded k m"
  shows "pins_bounded k (snd (unpin_page page_id dirty m))"
proof (cases "map_of (page_table m) page_id")
  case None
  with assms show ?thesis
    by (simp add: unpin_page_def)
next
  case (Some frame_id)
  then obtain p where pg: "pages (snd (unpin_page page_id dirty m)) = (pages m)[frame_id := p]"
    and cnt: "pin_count p = (if pin_count (pages m ! frame_id) > 0
                             then pin_count (pages m ! frame_id) - 1
                             else pin_count (pages m ! frame_id))"
    by (simp add: unpin_page_def Let_def)
  have "0 \<le> pin_count p \<and> pin_count p \<le> k" if "frame_id < length (pages m)"
    using pins_bounded_nth [OF assms that] cnt by simp
  then show ?thesis
    by (intro pins_bounded_update [OF assms _ pg]) simp_all
qed

lemma pins_bounded_flush_page:
  assumes "pins_bounded k m"
  shows "pins_bounded k (snd (flush_page page_id m))"
proof (cases "map_of (page_table m) page_id")
  case None
  with assms show ?thesis
    by (simp add: flush_page_def)
next
  case (Some frame_id)
  then obtain p where pg: "pages (snd (flush_page page_id m)) = (pages m)[frame_id := p]"
    and cnt: "pin_count p = pin_count (pages m ! frame_id)"
    by (simp add: flush_page_def Let_def)
  have "0 \<le> pin_count p \<and> pin_count p \<le> k" if "frame_id < length (pages m)"
    using pins_bounded_nth [OF assms that] cnt by simp
  then show ?thesis
    by (intro pins_bounded_update [OF assms _ pg]) simp_all
qed

lemma pins_bounded_delete_page:
  assumes "pins_bounded k m"
  shows "pins_bounded k (snd (delete_page page_id m))"
proof (cases "map_of (page_table m) page_id")
  case None
  with assms show ?thesis
    by (simp add: delete_page_def)
next
  case (Some frame_id)
  show ?thesis
  proof (cases "pin_count (pages m ! frame_id) > 0")
    case True
    with Some assms show ?thesis
      by (simp add: delete_page_def Let_def)
  next
    case False
    with Some obtain p where pg: "pages (snd (delete_page page_id m)) = (pages m)[frame_id := p]"
      and cnt: "pin_count p = pin_count (pages m ! frame_id)"
      by (simp add: delete_page_def reset_memory_def Let_def)
    have "0 \<le> pin_count p \<and> pin_count p \<le> k" if "frame_id < length (pages m)"
      using pins_bounded_nth [OF assms that] cnt by simp
    then show ?thesis
      by (intro pins_bounded_update [OF assms _ pg]) simp_all
  qed
qed

lemma pins_bounded_flush_fold:
  "pins_bounded k m \<Longrightarrow>
   pins_bounded k (fold (\<lambda>(page_id, _) m'. if fd page_id = file
                                              then snd (flush_page page_id m') else m') pt m)"
  by (induction pt arbitrary: m) (auto simp: pins_bounded_flush_page)

lemma pins_bounded_step:
  assumes "pins_bounded k m" and "k < INT_MAX"
  shows "pins_bounded (k + 1) (bpm_step x m)"
proof -
  have up: "pins_bounded (k + 1) m'" if "pins_bounded k m'" for m'
    using that by (rule pins_bounded_mono) simp
  show ?thesis
  proof (cases x)
    case (Fetch page_id)
    with assms show ?thesis by (simp add: pins_bounded_fetch_page)
  next
    case (UnpinPage page_id dirty)
    with assms(1) show ?thesis by (simp add: up pins_bounded_unpin_page)
  next
    case (Flush page_id)
    with assms(1) show ?thesis by (simp add: up pins_bounded_flush_page)
  next
    case NewPage
    with assms(1) show ?thesis by (simp add: pins_bounded_new_page)
  next
    case (Delete page_id)
    with assms(1) show ?thesis by (simp add: up pins_bounded_delete_page)
  next
    case (FlushAll f)
    with assms(1) show ?thesis
      by (simp add: up flush_all_pages_def pins_bounded_flush_fold)
  qed
qed

lemma pins_bounded_run:
  "pins_bounded k m \<Longrightarrow> k + int (length ops) \<le> INT_MAX \<Longrightarrow>
     pins_bounded (k + int (length ops)) (bpm_run ops m)"
  unfolding bpm_run_def
proof (induction ops arbitrary: k m)
  case Nil
  then show ?case by simp
next
  case (Cons x ops)
  from Cons.prems(2) have "k < INT_MAX"
    by simp
  with Cons.prems(1) have "pins_bounded (k + 1) (bpm_step x m)"
    by (rule pins_bounded_step)
  moreover from Cons.prems have "k + 1 + int (length ops) \<le> INT_MAX"
    by simp
  ultimately have "pins_bounded (k + 1 + int (length ops)) (fold bpm_step ops (bpm_step x m))"
    by (rule Cons.IH)
  then show ?case
    by (simp add: ac_simps)
qed

text \<open>
  No pin count is negative after a run of at most \<open>INT_MAX\<close> operations on a new manager.
  (A longer run can fetch one resident page \<open>INT_MAX + 1\<close> times, and the increment of
  its pin count then overflows.)
\<close>

lemma pins_nonneg_reachable:
  assumes "int (length ops) \<le> INT_MAX"
  shows "pins_nonneg (bpm_run ops (BufferPoolManager_new pool_size page_size file d))"
proof -
  have "pins_bounded (0 + int (length ops))
          (bpm_run ops (BufferPoolManager_new pool_size page_size file d))"
    using assms by (intro pins_bounded_run pins_bounded_new) simp
  then show ?thesis
    by (simp add: pins_nonneg_def pins_bounded_def)
qed

lemma update_page_writes_back:
  assumes "pg < length (pages m)"
  shows "writes (disk_manager (update_page pg new_page_id new_frame_id m)) =
           writes (disk_manager m) @
           (if is_dirty (pages m ! pg) then [(ident (pages m ! pg), data (pages m ! pg))]
            else [])"
    and "ident (pages m ! pg) \<noteq> new_page_id \<Longrightarrow>
           map_of (page_table (update_page pg new_page_id new_frame_id m))
             (ident (pages m ! pg)) = None"
    and "map_of (page_table (update_page pg new_page_id new_frame_id m)) new_page_id =
           Some new_frame_id"
  by (simp_all add: update_page_def Let_def write_page_def update_conv' delete_conv')

section \<open>Claims about the buffer pool manager\<close>

text \<open>
  C1 fails on the code. In a pool of one frame, a page is created and unpinned dirty, so
  that the free list is empty and the tracker holds frame 0, dirty, with identity
  (0, 0). A fetch of another page, and likewise \<open>new_page\<close>, then reuses frame 0 with no
  call of \<open>write_page\<close>, and the page table still maps the old identity to the frame.
  (\<open>update_page\<close> would write the dirty frame back and erase the old identity, but
  neither function calls it.)
\<close>

theorem eviction_skips_write_back:
  "free_list dirty_victim_state = [] \<and>
   lru_list (replacer dirty_victim_state) = [0] \<and>
   ident (pages dirty_victim_state ! 0) = \<lparr>fd = 0, page_no = 0\<rparr> \<and>
   is_dirty (pages dirty_victim_state ! 0) \<and>
   map_of (page_table dirty_victim_state) \<lparr>fd = 0, page_no = 7\<rparr> = None \<and>
   fst (fetch_page \<lparr>fd = 0, page_no = 7\<rparr> dirty_victim_state) = Some 0 \<and>
   writes (disk_manager (snd (fetch_page \<lparr>fd = 0, page_no = 7\<rparr> dirty_victim_state))) = [] \<and>
   map_of (page_table (snd (fetch_page \<lparr>fd = 0, page_no = 7\<rparr> dirty_victim_state)))
     \<lparr>fd = 0, page_no = 0\<rparr> = Some 0 \<and>
   fst (new_page dirty_victim_state) = Some (\<lparr>fd = 0, page_no = 1\<rparr>, 0) \<and>
   writes (disk_manager (snd (new_page dirty_victim_state))) = [] \<and>
   map_of (page_table (snd (new_page dirty_victim_state))) \<lparr>fd = 0, page_no = 0\<rparr> = Some 0"
  by (simp add: dirty_victim_state_def bpm_defs)

text \<open>
  C2 fails on the code. \<open>delete_page\<close> puts the frame on the free list and leaves it in
  the tracker. In a pool of one frame: create a page, unpin it, delete it, create a page
  again. The second page sits in frame 0 with pin count 1, frame 0 is still tracked, and
  victim selection returns it.
\<close>

theorem pinned_frame_tracked_after_delete:
  "pin_count (pages pinned_tracked_state ! 0) = 1 \<and>
   free_list pinned_tracked_state = [] \<and>
   lru_list (replacer pinned_tracked_state) = [0] \<and>
   0 \<in> lru_map (replacer pinned_tracked_state) \<and>
   map_option fst (victim (replacer pinned_tracked_state)) = Some 0 \<and>
   map_option fst (find_victim_page pinned_tracked_state) = Some 0"
  by (simp add: pinned_tracked_state_def bpm_defs)

text \<open>
  C3 fails on the code. In a pool of one frame: create a page, unpin it, create a page
  again. The second page takes frame 0 from the tracker; the identity (0, 0) of the
  first page is still a key of the page table, and no frame holds it.
\<close>

theorem stale_key_after_eviction:
  "map_of (page_table evicted_state) \<lparr>fd = 0, page_no = 0\<rparr> = Some 0 \<and>
   map ident (pages evicted_state) = [\<lparr>fd = 0, page_no = 1\<rparr>]"
  by (simp add: evicted_state_def bpm_defs)

text \<open>
  C4 fails on the code. In a pool of one frame: create a page, unpin it, delete it.
  Frame 0 is on the free list and in the tracker at the same time.
\<close>

theorem free_frame_still_tracked:
  "free_list deleted_state = [0] \<and>
   lru_list (replacer deleted_state) = [0] \<and>
   0 \<in> lru_map (replacer deleted_state)"
  by (simp add: deleted_state_def bpm_defs)

text \<open>
  C5 fails on the code. On a new manager no page is resident; \<open>delete_page\<close> returns
  false (and changes nothing), the first time and again the second time.
\<close>

theorem delete_page_absent_fails:
  "delete_page page_id (BufferPoolManager_new pool_size page_size file d) =
     (False, BufferPoolManager_new pool_size page_size file d) \<and>
   fst (delete_page page_id
          (snd (delete_page page_id (BufferPoolManager_new pool_size page_size file d)))) = False"
  by (simp add: delete_page_def BufferPoolManager_new_def)

text \<open>
  C7. \<open>unpin_page\<close> returns false exactly when the identity is not in the page table.
  When it is, at a frame of the pool whose pin count is not negative, the call returns
  true, the dirty flag becomes its old value or \<open>dirty\<close>, the pin count goes down by one
  but not below 0, and the frame is handed to the tracker's \<open>unpin\<close> exactly when the new
  count is 0. Identity and bytes of the frame, the other frames, the page table, the
  free list and the disk stay as they are.
\<close>

theorem unpin_page_effect:
  "(fst (unpin_page page_id dirty m) = False \<longleftrightarrow> map_of (page_table m) page_id = None) \<and>
   (\<forall>frame_id.
      map_of (page_table m) page_id = Some frame_id \<and> frame_id < length (pages m) \<and>
      0 \<le> pin_count (pages m ! frame_id) \<longrightarrow>
      fst (unpin_page page_id dirty m) = True \<and>
      is_dirty (pages (snd (unpin_page page_id dirty m)) ! frame_id) =
        (is_dirty (pages m ! frame_id) \<or> dirty) \<and>
      pin_count (pages (snd (unpin_page page_id dirty m)) ! frame_id) =
        max 0 (pin_count (pages m ! frame_id) - 1) \<and>
      replacer (snd (unpin_page page_id dirty m)) =
        (if pin_count (pages (snd (unpin_page page_id dirty m)) ! frame_id) = 0
         then unpin frame_id (replacer m) else replacer m) \<and>
      (pin_count (pages (snd (unpin_page page_id dirty m)) ! frame_id) = 0 \<longrightarrow>
         frame_id \<in> lru_map (replacer (snd (unpin_page page_id dirty m)))) \<and>
      ident (pages (snd (unpin_page page_id dirty m)) ! frame_id) =
        ident (pages m ! frame_id) \<and>
      data (pages (snd (unpin_page page_id dirty m)) ! frame_id) =
        data (pages m ! frame_id) \<and>
      (\<forall>g. g \<noteq> frame_id \<longrightarrow>
         pages (snd (unpin_page page_id dirty m)) ! g = pages m ! g) \<and>
      page_table (snd (unpin_page page_id dirty m)) = page_table m \<and>
      free_list (snd (unpin_page page_id dirty m)) = free_list m \<and>
      disk_manager (snd (unpin_page page_id dirty m)) = disk_manager m)"
proof (intro conjI allI impI)
  show "fst (unpin_page page_id dirty m) = False \<longleftrightarrow> map_of (page_table m) page_id = None"
    by (simp add: unpin_page_def Let_def split: option.splits)
next
  fix frame_id
  assume "map_of (page_table m) page_id = Some frame_id \<and> frame_id < length (pages m) \<and>
      0 \<le> pin_count (pages m ! frame_id)"
  then have res: "map_of (page_table m) page_id = Some frame_id"
    and len: "frame_id < length (pages m)"
    and nonneg: "0 \<le> pin_count (pages m ! frame_id)"
    by simp_all
  show "fst (unpin_page page_id dirty m) = True"
    using res by (simp add: unpin_page_def Let_def)
  show "is_dirty (pages (snd (unpin_page page_id dirty m)) ! frame_id) =
        (is_dirty (pages m ! frame_id) \<or> dirty)"
    using res len by (simp add: unpin_page_def Let_def)
  show "pin_count (pages (snd (unpin_page page_id dirty m)) ! frame_id) =
        max 0 (pin_count (pages m ! frame_id) - 1)"
    using res len nonneg by (simp add: unpin_page_def Let_def)
  show "replacer (snd (unpin_page page_id dirty m)) =
        (if pin_count (pages (snd (unpin_page page_id dirty m)) ! frame_id) = 0
         then unpin frame_id (replacer m) else replacer m)"
    using res len by (simp add: unpin_page_def Let_def)
  show "frame_id \<in> lru_map (replacer (snd (unpin_page page_id dirty m)))"
    if "pin_count (pages (snd (unpin_page page_id dirty m)) ! frame_id) = 0"
    using that res len by (simp add: unpin_page_def Let_def unpin_def split: if_splits)
  show "ident (pages (snd (unpin_page page_id dirty m)) ! frame_id) =
        ident (pages m ! frame_id)"
    using res len by (simp add: unpin_page_def Let_def)
  show "data (pages (snd (unpin_page page_id dirty m)) ! frame_id) =
        data (pages m ! frame_id)"
    using res len by (simp add: unpin_page_def Let_def)
  show "page_table (snd (unpin_page page_id dirty m)) = page_table m"
    using res by (simp add: unpin_page_def Let_def)
  show "free_list (snd (unpin_page page_id dirty m)) = free_list m"
    using res by (simp add: unpin_page_def Let_def)
  show "disk_manager (snd (unpin_page page_id dirty m)) = disk_manager m"
    using res by (simp add: unpin_page_def Let_def)
  fix g
  assume "g \<noteq> frame_id"
  then show "pages (snd (unpin_page page_id dirty m)) ! g = pages m ! g"
    using res by (simp add: unpin_page_def Let_def)
qed

text \<open>
  The theorem in a pool of two frames where page (0, 0) sits pinned once in frame 0 and
  page (0, 1) sits unpinned and dirty in frame 1: unpinning (0, 0) clean brings its count
  to 0 and makes frame 0 the most recently unpinned one; unpinning (0, 1) again keeps
  its count at 0 and its dirty flag set; unpinning the absent page (0, 9) fails.
\<close>

theorem unpin_page_effect_witness:
  "map_of (page_table two_pages_state) \<lparr>fd = 0, page_no = 0\<rparr> = Some 0 \<and>
   0 < length (pages two_pages_state) \<and>
   0 \<le> pin_count (pages two_pages_state ! 0) \<and>
   fst (unpin_page \<lparr>fd = 0, page_no = 0\<rparr> False two_pages_state) = True \<and>
   pin_count (pages (snd (unpin_page \<lparr>fd = 0, page_no = 0\<rparr> False two_pages_state)) ! 0) = 0 \<and>
   is_dirty (pages (snd (unpin_page \<lparr>fd = 0, page_no = 0\<rparr> False two_pages_state)) ! 0) = False \<and>
   lru_list (replacer (snd (unpin_page \<lparr>fd = 0, page_no = 0\<rparr> False two_pages_state))) = [0, 1] \<and>
   map_of (page_table two_pages_state) \<lparr>fd = 0, page_no = 1\<rparr> = Some 1 \<and>
   pin_count (pages (snd (unpin_page \<lparr>fd = 0, page_no = 1\<rparr> False two_pages_state)) ! 1) = 0 \<and>
   is_dirty (pages (snd (unpin_page \<lparr>fd = 0, page_no = 1\<rparr> False two_pages_state)) ! 1) = True \<and>
   fst (unpin_page \<lparr>fd = 0, page_no = 9\<rparr> True two_pages_state) = False"
proof -
  have st: "two_pages_state =
    \<lparr>pages = [\<lparr>ident = \<lparr>fd = 0, page_no = 0\<rparr>, data = [0, 0], is_dirty = False, pin_count = 1\<rparr>,
              \<lparr>ident = \<lparr>fd = 0, page_no = 1\<rparr>, data = [0, 0], is_dirty = True, pin_count = 0\<rparr>],
     page_table = [(\<lparr>fd = 0, page_no = 0\<rparr>, 0), (\<lparr>fd = 0, page_no = 1\<rparr>, 1)],
     free_list = [],
     replacer = \<lparr>max_size = 2, lru_list = [1], lru_map = {1}, LRUlist = []\<rparr>,
     disk_manager = empty_disk, bpm_fd = 0, next_page_id = 2\<rparr>"
    by (simp add: two_pages_state_def bpm_defs numeral_2_eq_2)
  have h0: "map_of (page_table two_pages_state) \<lparr>fd = 0, page_no = 0\<rparr> = Some 0 \<and>
      0 < length (pages two_pages_state) \<and> 0 \<le> pin_count (pages two_pages_state ! 0)"
    by (simp add: st)
  have h1: "map_of (page_table two_pages_state) \<lparr>fd = 0, page_no = 1\<rparr> = Some 1 \<and>
      1 < length (pages two_pages_state) \<and> 0 \<le> pin_count (pages two_pages_state ! 1)"
    by (simp add: st)
  have h9: "map_of (page_table two_pages_state) \<lparr>fd = 0, page_no = 9\<rparr> = None"
    by (simp add: st)
  note t0 = unpin_page_effect [of "\<lparr>fd = 0, page_no = 0\<rparr>" False two_pages_state]
  note t1 = unpin_page_effect [of "\<lparr>fd = 0, page_no = 1\<rparr>" False two_pages_state]
  note t9 = unpin_page_effect [of "\<lparr>fd = 0, page_no = 9\<rparr>" True two_pages_state]
  from t0 h0 have a: "fst (unpin_page \<lparr>fd = 0, page_no = 0\<rparr> False two_pages_state) = True"
    "pin_count (pages (snd (unpin_page \<lparr>fd = 0, page_no = 0\<rparr> False two_pages_state)) ! 0) =
       max 0 (pin_count (pages two_pages_state ! 0) - 1)"
    "is_dirty (pages (snd (unpin_page \<lparr>fd = 0, page_no = 0\<rparr> False two_pages_state)) ! 0) =
       (is_dirty (pages two_pages_state ! 0) \<or> False)"
    "replacer (snd (unpin_page \<lparr>fd = 0, page_no = 0\<rparr> False two_pages_state)) =
        (if pin_count (pages (snd (unpin_page \<lparr>fd = 0, page_no = 0\<rparr> False two_pages_state)) ! 0) = 0
         then unpin 0 (replacer two_pages_state) else replacer two_pages_state)"
    by blast+
  from t1 h1 have b:
    "pin_count (pages (snd (unpin_page \<lparr>fd = 0, page_no = 1\<rparr> False two_pages_state)) ! 1) =
       max 0 (pin_count (pages two_pages_state ! 1) - 1)"
    "is_dirty (pages (snd (unpin_page \<lparr>fd = 0, page_no = 1\<rparr> False two_pages_state)) ! 1) =
       (is_dirty (pages two_pages_state ! 1) \<or> False)"
    by blast+
  from t9 h9 have c: "fst (unpin_page \<lparr>fd = 0, page_no = 9\<rparr> True two_pages_state) = False"
    by blast
  have a2: "pin_count (pages (snd (unpin_page \<lparr>fd = 0, page_no = 0\<rparr> False two_pages_state)) ! 0) = 0"
    by (simp add: a(2)) (simp add: st)
  have a4: "lru_list (replacer (snd (unpin_page \<lparr>fd = 0, page_no = 0\<rparr> False two_pages_state))) = [0, 1]"
    by (simp add: a(4) a2) (simp add: st unpin_def)
  show ?thesis
    using h0 h1 a(1) a2 a(3) a4 b c by (simp add: st)
qed


text \<open>
  C8. \<open>flush_page\<close> returns false exactly when the identity is not in the page table.
  When it is, at a frame of the pool, the call returns true, writes the frame's bytes to
  the block of that identity (one \<open>write_page\<close> call, whatever the pin count), and clears
  the dirty flag; pin count, bytes and identity of the frame, the other frames, the page
  table, the free list and the tracker stay as they are.
\<close>

theorem flush_page_effect:
  "(fst (flush_page page_id m) = False \<longleftrightarrow> map_of (page_table m) page_id = None) \<and>
   (\<forall>frame_id.
      map_of (page_table m) page_id = Some frame_id \<and> frame_id < length (pages m) \<longrightarrow>
      fst (flush_page page_id m) = True \<and>
      disk_manager (snd (flush_page page_id m)) =
        write_page (fd page_id) (page_no page_id) (data (pages m ! frame_id)) (disk_manager m) \<and>
      writes (disk_manager (snd (flush_page page_id m))) =
        writes (disk_manager m) @ [(page_id, data (pages m ! frame_id))] \<and>
      blocks (disk_manager (snd (flush_page page_id m))) page_id = data (pages m ! frame_id) \<and>
      is_dirty (pages (snd (flush_page page_id m)) ! frame_id) = False \<and>
      pin_count (pages (snd (flush_page page_id m)) ! frame_id) =
        pin_count (pages m ! frame_id) \<and>
      data (pages (snd (flush_page page_id m)) ! frame_id) = data (pages m ! frame_id) \<and>
      ident (pages (snd (flush_page page_id m)) ! frame_id) = ident (pages m ! frame_id) \<and>
      (\<forall>g. g \<noteq> frame_id \<longrightarrow> pages (snd (flush_page page_id m)) ! g = pages m ! g) \<and>
      page_table (snd (flush_page page_id m)) = page_table m \<and>
      free_list (snd (flush_page page_id m)) = free_list m \<and>
      replacer (snd (flush_page page_id m)) = replacer m)"
proof (intro conjI allI impI)
  show "fst (flush_page page_id m) = False \<longleftrightarrow> map_of (page_table m) page_id = None"
    by (simp add: flush_page_def Let_def split: option.splits)
next
  fix frame_id
  assume "map_of (page_table m) page_id = Some frame_id \<and> frame_id < length (pages m)"
  then have res: "map_of (page_table m) page_id = Some frame_id"
    and len: "frame_id < length (pages m)"
    by simp_all
  have whole: "\<lparr>fd = fd page_id, page_no = page_no page_id\<rparr> = page_id"
    by simp
  show "fst (flush_page page_id m) = True"
    using res by (simp add: flush_page_def Let_def)
  show "disk_manager (snd (flush_page page_id m)) =
        write_page (fd page_id) (page_no page_id) (data (pages m ! frame_id)) (disk_manager m)"
    using res by (simp add: flush_page_def Let_def)
  show "writes (disk_manager (snd (flush_page page_id m))) =
        writes (disk_manager m) @ [(page_id, data (pages m ! frame_id))]"
    using res by (simp add: flush_page_def Let_def write_page_def)
  show "blocks (disk_manager (snd (flush_page page_id m))) page_id = data (pages m ! frame_id)"
    using res by (simp add: flush_page_def Let_def write_page_def)
  show "is_dirty (pages (snd (flush_page page_id m)) ! frame_id) = False"
    using res len by (simp add: flush_page_def Let_def)
  show "pin_count (pages (snd (flush_page page_id m)) ! frame_id) =
        pin_count (pages m ! frame_id)"
    using res len by (simp add: flush_page_def Let_def)
  show "data (pages (snd (flush_page page_id m)) ! frame_id) = data (pages m ! frame_id)"
    using res len by (simp add: flush_page_def Let_def)
  show "ident (pages (snd (flush_page page_id m)) ! frame_id) = ident (pages m ! frame_id)"
    using res len by (simp add: flush_page_def Let_def)
  show "page_table (snd (flush_page page_id m)) = page_table m"
    using res by (simp add: flush_page_def Let_def)
  show "free_list (snd (flush_page page_id m)) = free_list m"
    using res by (simp add: flush_page_def Let_def)
  show "replacer (snd (flush_page page_id m)) = replacer m"
    using res by (simp add: flush_page_def Let_def)
  fix g
  assume "g \<noteq> frame_id"
  then show "pages (snd (flush_page page_id m)) ! g = pages m ! g"
    using res by (simp add: flush_page_def Let_def)
qed

text \<open>
  The theorem in the pool of two frames: flushing the pinned page (0, 0) and flushing the
  unpinned dirty page (0, 1) each write the frame's two zero bytes once and leave the
  frame clean with its pin count; flushing the absent page (0, 9) fails.
\<close>

theorem flush_page_effect_witness:
  "map_of (page_table two_pages_state) \<lparr>fd = 0, page_no = 0\<rparr> = Some 0 \<and>
   0 < length (pages two_pages_state) \<and>
   pin_count (pages two_pages_state ! 0) = 1 \<and>
   fst (flush_page \<lparr>fd = 0, page_no = 0\<rparr> two_pages_state) = True \<and>
   writes (disk_manager (snd (flush_page \<lparr>fd = 0, page_no = 0\<rparr> two_pages_state))) =
     [(\<lparr>fd = 0, page_no = 0\<rparr>, [0, 0])] \<and>
   pin_count (pages (snd (flush_page \<lparr>fd = 0, page_no = 0\<rparr> two_pages_state)) ! 0) = 1 \<and>
   map_of (page_table two_pages_state) \<lparr>fd = 0, page_no = 1\<rparr> = Some 1 \<and>
   1 < length (pages two_pages_state) \<and>
   is_dirty (pages two_pages_state ! 1) = True \<and>
   writes (disk_manager (snd (flush_page \<lparr>fd = 0, page_no = 1\<rparr> two_pages_state))) =
     [(\<lparr>fd = 0, page_no = 1\<rparr>, [0, 0])] \<and>
   is_dirty (pages (snd (flush_page \<lparr>fd = 0, page_no = 1\<rparr> two_pages_state)) ! 1) = False \<and>
   lru_list (replacer (snd (flush_page \<lparr>fd = 0, page_no = 1\<rparr> two_pages_state))) = [1] \<and>
   fst (flush_page \<lparr>fd = 0, page_no = 9\<rparr> two_pages_state) = False"
proof -
  have st: "two_pages_state =
    \<lparr>pages = [\<lparr>ident = \<lparr>fd = 0, page_no = 0\<rparr>, data = [0, 0], is_dirty = False, pin_count = 1\<rparr>,
              \<lparr>ident = \<lparr>fd = 0, page_no = 1\<rparr>, data = [0, 0], is_dirty = True, pin_count = 0\<rparr>],
     page_table = [(\<lparr>fd = 0, page_no = 0\<rparr>, 0), (\<lparr>fd = 0, page_no = 1\<rparr>, 1)],
     free_list = [],
     replacer = \<lparr>max_size = 2, lru_list = [1], lru_map = {1}, LRUlist = []\<rparr>,
     disk_manager = empty_disk, bpm_fd = 0, next_page_id = 2\<rparr>"
    by (simp add: two_pages_state_def bpm_defs numeral_2_eq_2)
  have h0: "map_of (page_table two_pages_state) \<lparr>fd = 0, page_no = 0\<rparr> = Some 0 \<and>
      0 < length (pages two_pages_state)"
    by (simp add: st)
  have h1: "map_of (page_table two_pages_state) \<lparr>fd = 0, page_no = 1\<rparr> = Some 1 \<and>
      1 < length (pages two_pages_state)"
    by (simp add: st)
  have h9: "map_of (page_table two_pages_state) \<lparr>fd = 0, page_no = 9\<rparr> = None"
    by (simp add: st)
  note t0 = flush_page_effect [of "\<lparr>fd = 0, page_no = 0\<rparr>" two_pages_state]
  note t1 = flush_page_effect [of "\<lparr>fd = 0, page_no = 1\<rparr>" two_pages_state]
  note t9 = flush_page_effect [of "\<lparr>fd = 0, page_no = 9\<rparr>" two_pages_state]
  from t0 h0 have a: "fst (flush_page \<lparr>fd = 0, page_no = 0\<rparr> two_pages_state) = True"
    "writes (disk_manager (snd (flush_page \<lparr>fd = 0, page_no = 0\<rparr> two_pages_state))) =
       writes (disk_manager two_pages_state) @
       [(\<lparr>fd = 0, page_no = 0\<rparr>, data (pages two_pages_state ! 0))]"
    "pin_count (pages (snd (flush_page \<lparr>fd = 0, page_no = 0\<rparr> two_pages_state)) ! 0) =
       pin_count (pages two_pages_state ! 0)"
    by blast+
  from t1 h1 have b:
    "writes (disk_manager (snd (flush_page \<lparr>fd = 0, page_no = 1\<rparr> two_pages_state))) =
       writes (disk_manager two_pages_state) @
       [(\<lparr>fd = 0, page_no = 1\<rparr>, data (pages two_pages_state ! 1))]"
    "is_dirty (pages (snd (flush_page \<lparr>fd = 0, page_no = 1\<rparr> two_pages_state)) ! 1) = False"
    "replacer (snd (flush_page \<lparr>fd = 0, page_no = 1\<rparr> two_pages_state)) =
       replacer two_pages_state"
    by blast+
  from t9 h9 have c: "fst (flush_page \<lparr>fd = 0, page_no = 9\<rparr> two_pages_state) = False"
    by blast
  show ?thesis
    using h0 h1 a b c by (simp add: st empty_disk_def)
qed

text \<open>
  C10. When the identity is in the page table, at a frame of the pool whose pin count is
  an \<open>int\<close> value below \<open>INT_MAX\<close>, \<open>fetch_page\<close> returns that frame, adds one to its pin
  count and calls the tracker's \<open>pin\<close> for it, so that the frame is no longer tracked and
  the other tracked frames keep their order. Bytes, dirty flag and identity of the frame,
  every other frame, the page table, the free list and the disk (no read, no write) stay
  as they are.
\<close>

theorem fetch_page_hit_effect:
  assumes "map_of (page_table m) page_id = Some frame_id"
    and "frame_id < length (pages m)"
    and "INT_MIN \<le> pin_count (pages m ! frame_id)"
    and "pin_count (pages m ! frame_id) < INT_MAX"
  shows "fst (fetch_page page_id m) = Some frame_id \<and>
     pin_count (pages (snd (fetch_page page_id m)) ! frame_id) =
       pin_count (pages m ! frame_id) + 1 \<and>
     data (pages (snd (fetch_page page_id m)) ! frame_id) = data (pages m ! frame_id) \<and>
     is_dirty (pages (snd (fetch_page page_id m)) ! frame_id) =
       is_dirty (pages m ! frame_id) \<and>
     ident (pages (snd (fetch_page page_id m)) ! frame_id) = ident (pages m ! frame_id) \<and>
     replacer (snd (fetch_page page_id m)) = pin frame_id (replacer m) \<and>
     lru_map (replacer (snd (fetch_page page_id m))) = lru_map (replacer m) - {frame_id} \<and>
     (replacer_inv (replacer m) \<longrightarrow>
        frame_id \<notin> set (lru_list (replacer (snd (fetch_page page_id m)))) \<and>
        lru_list (replacer (snd (fetch_page page_id m))) =
          filter (\<lambda>g. g \<noteq> frame_id) (lru_list (replacer m))) \<and>
     (\<forall>g. g \<noteq> frame_id \<longrightarrow> pages (snd (fetch_page page_id m)) ! g = pages m ! g) \<and>
     length (pages (snd (fetch_page page_id m))) = length (pages m) \<and>
     page_table (snd (fetch_page page_id m)) = page_table m \<and>
     free_list (snd (fetch_page page_id m)) = free_list m \<and>
     disk_manager (snd (fetch_page page_id m)) = disk_manager m"
proof -
  from assms(3,4)
  have cast: "int_cast (pin_count (pages m ! frame_id) + 1) = pin_count (pages m ! frame_id) + 1"
    by (intro int_cast_id) simp_all
  have hit: "fetch_page page_id m =
     (Some frame_id,
      m\<lparr>pages := (pages m)[frame_id :=
                    (pages m ! frame_id)\<lparr>pin_count := pin_count (pages m ! frame_id) + 1\<rparr>],
        replacer := pin frame_id (replacer m)\<rparr>)"
    using assms(1) by (simp add: fetch_page_def Let_def cast)
  show ?thesis
    using assms(2) by (simp add: hit pin_untracks pin_keeps_order)
qed

text \<open>
  The theorem in the pool of three frames, at the unpinned, dirty page (0, 1) in frame 1,
  with the tracker holding 2, 1, 0: the fetch returns frame 1 with pin count 1, still
  dirty; the tracker holds 2, 0; frame 0 is as before and the disk has seen no read.
\<close>

theorem fetch_page_hit_effect_witness:
  "map_of (page_table three_pages_state) \<lparr>fd = 0, page_no = 1\<rparr> = Some 1 \<and>
   1 < length (pages three_pages_state) \<and>
   INT_MIN \<le> pin_count (pages three_pages_state ! 1) \<and>
   pin_count (pages three_pages_state ! 1) < INT_MAX \<and>
   replacer_inv (replacer three_pages_state) \<and>
   lru_list (replacer three_pages_state) = [2, 1, 0] \<and>
   fst (fetch_page \<lparr>fd = 0, page_no = 1\<rparr> three_pages_state) = Some 1 \<and>
   pin_count (pages (snd (fetch_page \<lparr>fd = 0, page_no = 1\<rparr> three_pages_state)) ! 1) = 1 \<and>
   is_dirty (pages (snd (fetch_page \<lparr>fd = 0, page_no = 1\<rparr> three_pages_state)) ! 1) = True \<and>
   lru_list (replacer (snd (fetch_page \<lparr>fd = 0, page_no = 1\<rparr> three_pages_state))) = [2, 0] \<and>
   lru_map (replacer (snd (fetch_page \<lparr>fd = 0, page_no = 1\<rparr> three_pages_state))) = {0, 2} \<and>
   pages (snd (fetch_page \<lparr>fd = 0, page_no = 1\<rparr> three_pages_state)) ! 0 =
     pages three_pages_state ! 0 \<and>
   reads (disk_manager (snd (fetch_page \<lparr>fd = 0, page_no = 1\<rparr> three_pages_state))) = []"
proof -
  have st: "three_pages_state =
    \<lparr>pages = [\<lparr>ident = \<lparr>fd = 0, page_no = 0\<rparr>, data = [0, 0], is_dirty = False, pin_count = 0\<rparr>,
              \<lparr>ident = \<lparr>fd = 0, page_no = 1\<rparr>, data = [0, 0], is_dirty = True, pin_count = 0\<rparr>,
              \<lparr>ident = \<lparr>fd = 0, page_no = 2\<rparr>, data = [0, 0], is_dirty = False, pin_count = 0\<rparr>],
     page_table = [(\<lparr>fd = 0, page_no = 0\<rparr>, 0), (\<lparr>fd = 0, page_no = 1\<rparr>, 1),
                   (\<lparr>fd = 0, page_no = 2\<rparr>, 2)],
     free_list = [],
     replacer = \<lparr>max_size = 3, lru_list = [2, 1, 0], lru_map = {0, 1, 2}, LRUlist = []\<rparr>,
     disk_manager = empty_disk, bpm_fd = 0, next_page_id = 3\<rparr>"
    by (simp add: three_pages_state_def bpm_defs numeral_2_eq_2 numeral_3_eq_3 upt_rec
          insert_commute)
  have res: "map_of (page_table three_pages_state) \<lparr>fd = 0, page_no = 1\<rparr> = Some 1"
    and len: "1 < length (pages three_pages_state)"
    and lo: "INT_MIN \<le> pin_count (pages three_pages_state ! 1)"
    and hi: "pin_count (pages three_pages_state ! 1) < INT_MAX"
    and inv: "replacer_inv (replacer three_pages_state)"
    by (simp_all add: st replacer_inv_def INT_MIN_def INT_MAX_def insert_commute)
  have zero: "(0::nat) \<noteq> 1"
    by simp
  note t = fetch_page_hit_effect [OF res len lo hi]
  from t inv zero have a:
    "fst (fetch_page \<lparr>fd = 0, page_no = 1\<rparr> three_pages_state) = Some 1"
    "pin_count (pages (snd (fetch_page \<lparr>fd = 0, page_no = 1\<rparr> three_pages_state)) ! 1) =
       pin_count (pages three_pages_state ! 1) + 1"
    "is_dirty (pages (snd (fetch_page \<lparr>fd = 0, page_no = 1\<rparr> three_pages_state)) ! 1) =
       is_dirty (pages three_pages_state ! 1)"
    "lru_list (replacer (snd (fetch_page \<lparr>fd = 0, page_no = 1\<rparr> three_pages_state))) =
       filter (\<lambda>g. g \<noteq> 1) (lru_list (replacer three_pages_state))"
    "lru_map (replacer (snd (fetch_page \<lparr>fd = 0, page_no = 1\<rparr> three_pages_state))) =
       lru_map (replacer three_pages_state) - {1}"
    "pages (snd (fetch_page \<lparr>fd = 0, page_no = 1\<rparr> three_pages_state)) ! 0 =
       pages three_pages_state ! 0"
    "disk_manager (snd (fetch_page \<lparr>fd = 0, page_no = 1\<rparr> three_pages_state)) =
       disk_manager three_pages_state"
    by blast+
  have b: "pin_count (pages three_pages_state ! 1) = 0" "is_dirty (pages three_pages_state ! 1)"
    "lru_map (replacer three_pages_state) = {0, 1, 2}"
    "lru_list (replacer three_pages_state) = [2, 1, 0]"
    "reads (disk_manager three_pages_state) = []"
    by (simp_all add: st empty_disk_def)
  have c: "{0, 1, 2} - {1} = {0, 2::nat}"
    by auto
  show ?thesis
    using res len lo hi inv a b c by simp
qed

text \<open>
  At \<open>INT_MAX\<close> the increment of the hit path overflows: the new pin count is \<open>INT_MIN\<close>.
\<close>

lemma fetch_page_hit_overflow:
  assumes "map_of (page_table m) page_id = Some frame_id"
    and "frame_id < length (pages m)"
    and "pin_count (pages m ! frame_id) = INT_MAX"
  shows "pin_count (pages (snd (fetch_page page_id m)) ! frame_id) = INT_MIN"
  using assms by (simp add: fetch_page_def Let_def int_cast_overflow)

end
